theory Spec2Isabelle
  imports Main
begin

section \<open>Python values of the loader\<close>

text \<open>
  The development embeds \<^verbatim>\<open>src/django_vite/templatetags/django_vite.py\<close>.
  Python exceptions are values: a function that can raise returns \<open>error + 'a\<close>, with
  \<open>Inl\<close> the exception. The three failures the loader raises itself are all
  \<^verbatim>\<open>RuntimeError\<close>s and differ in their message; \<^verbatim>\<open>KeyError\<close>,
  \<^verbatim>\<open>IndexError\<close> and \<^verbatim>\<open>AttributeError\<close> are the exceptions of Python's own
  subscript, index and attribute operations where the source applies them unguarded.

  Names are those of the source. A leading underscore is dropped (\<^verbatim>\<open>_manifest\<close> is
  \<open>manifest\<close>, \<^verbatim>\<open>_generate_css_files_of_asset\<close> is \<open>generate_css_files_of_asset\<close>), and
  the class method \<^verbatim>\<open>instance\<close> is \<open>instance_of_loader\<close>.
\<close>

datatype error =
    RuntimeError string
  | KeyError string
  | IndexError
  | AttributeError

text \<open>
  A Python \<^verbatim>\<open>dict\<close> keeps its keys in insertion order; assigning to a key that is
  present replaces the value and keeps the key's position. Attribute dictionaries are
  association lists read in that order. \<open>dict_merge d kw\<close> is the display
  \<^verbatim>\<open>{**d, **kw}\<close>.
\<close>

fun dict_set :: "string \<Rightarrow> string \<Rightarrow> (string \<times> string) list \<Rightarrow> (string \<times> string) list" where
  "dict_set k v [] = [(k, v)]"
| "dict_set k v ((k', v') # d) = (if k' = k then (k, v) # d else (k', v') # dict_set k v d)"

definition dict_merge :: "(string \<times> string) list \<Rightarrow> (string \<times> string) list \<Rightarrow> (string \<times> string) list" where
  "dict_merge d kw = fold (\<lambda>(k, v). dict_set k v) kw d"

text \<open>\<^verbatim>\<open>sep.join(xs)\<close>.\<close>

fun str_join :: "string \<Rightarrow> string list \<Rightarrow> string" where
  "str_join sep [] = []"
| "str_join sep [x] = x"
| "str_join sep (x # y # ys) = x @ sep @ str_join sep (y # ys)"

text \<open>\<^verbatim>\<open>s in t\<close> on strings: \<open>s\<close> occurs in \<open>t\<close> as a contiguous substring.\<close>

fun starts_with :: "string \<Rightarrow> string \<Rightarrow> bool" where
  "starts_with [] t = True"
| "starts_with (a # s) [] = False"
| "starts_with (a # s) (b # t) = (a = b \<and> starts_with s t)"

fun str_contains :: "string \<Rightarrow> string \<Rightarrow> bool" where
  "str_contains s [] = (s = [])"
| "str_contains s (b # t) = (starts_with s (b # t) \<or> str_contains s t)"

section \<open>Settings, collaborators and the manifest\<close>

text \<open>
  The settings the loader reads from \<^verbatim>\<open>django_vite.conf.settings\<close> are the fields of a
  record. The port is the text that the f-string interpolates.
\<close>

record settings =
  DJANGO_VITE_DEV_MODE :: bool
  DJANGO_VITE_MANIFEST_PATH :: string
  DJANGO_VITE_LEGACY_POLYFILLS_MOTIF :: string
  DJANGO_VITE_WS_CLIENT_URL :: string
  DJANGO_VITE_REACT_REFRESH_URL :: string
  DJANGO_VITE_STATIC_URL_PREFIX :: string
  DJANGO_VITE_DEV_SERVER_PROTOCOL :: string
  DJANGO_VITE_DEV_SERVER_HOST :: string
  DJANGO_VITE_DEV_SERVER_PORT :: string
  STATIC_URL :: string

text \<open>
  One manifest entry: the JSON object with the key \<^verbatim>\<open>file\<close> and the optional keys
  \<^verbatim>\<open>imports\<close> and \<^verbatim>\<open>css\<close> (\<open>None\<close> when the key is absent, which the source tests with
  \<^verbatim>\<open>"imports" in manifest_entry\<close>). The manifest is the dictionary \<^verbatim>\<open>json.loads\<close> returns,
  in its iteration order; \<open>map_of\<close> is the subscript and \<^verbatim>\<open>in\<close>.
\<close>

record manifest_entry =
  entry_file :: string
  entry_imports :: "string list option"
  entry_css :: "string list option"

type_synonym manifest_dict = "(string \<times> manifest_entry) list"

definition imports_of :: "manifest_entry \<Rightarrow> string list" where
  "imports_of e = (case entry_imports e of None \<Rightarrow> [] | Some qs \<Rightarrow> qs)"

definition css_of :: "manifest_entry \<Rightarrow> string list" where
  "css_of e = (case entry_css e of None \<Rightarrow> [] | Some cs \<Rightarrow> cs)"

text \<open>
  What the loader calls outside this repository: \<^verbatim>\<open>urllib.parse.urljoin\<close>,
  \<^verbatim>\<open>apps.is_installed("django.contrib.staticfiles")\<close>, \<^verbatim>\<open>staticfiles_storage.url\<close>, reading
  a file (\<open>Inl\<close> the text of the exception) and \<^verbatim>\<open>json.loads\<close> (likewise).
\<close>

record env =
  urljoin :: "string \<Rightarrow> string \<Rightarrow> string"
  staticfiles_installed :: bool
  staticfiles_storage_url :: "string \<Rightarrow> string"
  read_file :: "string \<Rightarrow> string + string"
  json_loads :: "string \<Rightarrow> string + manifest_dict"

text \<open>The instance of \<^verbatim>\<open>DjangoViteAssetLoader\<close>: its attribute \<^verbatim>\<open>_manifest\<close>.\<close>

record loader =
  manifest :: "manifest_dict option"

section \<open>Tags and URLs\<close>

definition generate_script_tag :: "string \<Rightarrow> (string \<times> string) list \<Rightarrow> string" where
  \<open>generate_script_tag src attrs =
     ''<script '' @ str_join '' '' (map (\<lambda>(key, val). key @ ''="'' @ val @ ''"'') attrs)
       @ '' src="'' @ src @ ''"></script>''\<close>

definition generate_stylesheet_tag :: "string \<Rightarrow> string" where
  \<open>generate_stylesheet_tag href = ''<link rel="stylesheet" href="'' @ href @ ''" />''\<close>

text \<open>
  \<^verbatim>\<open>DJANGO_VITE_STATIC_URL[-1]\<close> raises \<^verbatim>\<open>IndexError\<close> on the empty string.
\<close>

definition generate_vite_server_url :: "env \<Rightarrow> settings \<Rightarrow> string \<Rightarrow> error + string" where
  "generate_vite_server_url ev cfg path =
     (let static_url = urljoin ev (STATIC_URL cfg) (DJANGO_VITE_STATIC_URL_PREFIX cfg) in
      if static_url = [] then Inl IndexError
      else
        let static_url' = (if last static_url \<noteq> CHR ''/'' then static_url @ ''/'' else static_url) in
        Inr (urljoin ev
              (DJANGO_VITE_DEV_SERVER_PROTOCOL cfg @ ''://'' @ DJANGO_VITE_DEV_SERVER_HOST cfg
                 @ '':'' @ DJANGO_VITE_DEV_SERVER_PORT cfg)
              (urljoin ev static_url' path)))"

definition generate_production_server_url :: "env \<Rightarrow> settings \<Rightarrow> string \<Rightarrow> string" where
  "generate_production_server_url ev cfg path =
     (if staticfiles_installed ev
      then staticfiles_storage_url ev (urljoin ev (DJANGO_VITE_STATIC_URL_PREFIX cfg) path)
      else urljoin ev (DJANGO_VITE_STATIC_URL_PREFIX cfg) path)"

section \<open>The CSS walk\<close>

text \<open>
  \<^verbatim>\<open>_generate_css_files_of_asset(path, already_processed)\<close> returns a list of tags and
  appends to the list it was given; the model returns both. The loop over the entry's own
  \<^verbatim>\<open>css\<close> is \<open>css_loop\<close>, the loop over its \<^verbatim>\<open>imports\<close> is \<open>imports_loop\<close>, where
  \<open>call\<close> is the recursive call and an exception of the call leaves the loop.

  The recursion follows the manifest and need not end, so the function takes fuel: the
  number of nested calls it may make. \<open>None\<close> means the fuel ran out; Python's own limit
  on the depth of the recursion is not modelled.
\<close>

fun css_loop :: "env \<Rightarrow> settings \<Rightarrow> string list \<Rightarrow> string list \<Rightarrow> string list \<Rightarrow> string list \<times> string list" where
  "css_loop ev cfg [] tags already_processed = (tags, already_processed)"
| "css_loop ev cfg (css_path # rest) tags already_processed =
     css_loop ev cfg rest
       (if css_path \<notin> set already_processed
        then tags @ [generate_stylesheet_tag (generate_production_server_url ev cfg css_path)]
        else tags)
       (already_processed @ [css_path])"

fun imports_loop ::
  "(string \<Rightarrow> string list \<Rightarrow> (error + string list \<times> string list) option) \<Rightarrow>
   string list \<Rightarrow> string list \<Rightarrow> string list \<Rightarrow> (error + string list \<times> string list) option" where
  "imports_loop call [] tags already_processed = Some (Inr (tags, already_processed))"
| "imports_loop call (import_path # rest) tags already_processed =
     (case call import_path already_processed of
        None \<Rightarrow> None
      | Some (Inl err) \<Rightarrow> Some (Inl err)
      | Some (Inr (ts, already_processed')) \<Rightarrow> imports_loop call rest (tags @ ts) already_processed')"

primrec generate_css_files_of_asset ::
  "nat \<Rightarrow> env \<Rightarrow> settings \<Rightarrow> manifest_dict \<Rightarrow> string \<Rightarrow> string list \<Rightarrow>
   (error + string list \<times> string list) option" where
  "generate_css_files_of_asset 0 ev cfg m path already_processed = None"
| "generate_css_files_of_asset (Suc fuel) ev cfg m path already_processed =
     (case map_of m path of
        None \<Rightarrow> Some (Inl (KeyError path))
      | Some manifest_entry \<Rightarrow>
          (case imports_loop (generate_css_files_of_asset fuel ev cfg m)
                  (imports_of manifest_entry) [] already_processed of
             None \<Rightarrow> None
           | Some (Inl err) \<Rightarrow> Some (Inl err)
           | Some (Inr (tags, already_processed')) \<Rightarrow>
               Some (Inr (css_loop ev cfg (css_of manifest_entry) tags already_processed'))))"

text \<open>
  The same walk, recording the CSS paths for which a tag is appended instead of the tags:
  \<open>new_css\<close> are the paths for which \<open>css_loop\<close> appends one.
\<close>

fun new_css :: "string list \<Rightarrow> string list \<Rightarrow> string list" where
  "new_css [] already_processed = []"
| "new_css (css_path # rest) already_processed =
     (if css_path \<notin> set already_processed then [css_path] else [])
       @ new_css rest (already_processed @ [css_path])"

primrec css_paths_of_asset ::
  "nat \<Rightarrow> manifest_dict \<Rightarrow> string \<Rightarrow> string list \<Rightarrow> (error + string list \<times> string list) option" where
  "css_paths_of_asset 0 m path already_processed = None"
| "css_paths_of_asset (Suc fuel) m path already_processed =
     (case map_of m path of
        None \<Rightarrow> Some (Inl (KeyError path))
      | Some manifest_entry \<Rightarrow>
          (case imports_loop (css_paths_of_asset fuel m) (imports_of manifest_entry) [] already_processed of
             None \<Rightarrow> None
           | Some (Inl err) \<Rightarrow> Some (Inl err)
           | Some (Inr (ps, already_processed')) \<Rightarrow>
               Some (Inr (ps @ new_css (css_of manifest_entry) already_processed',
                          already_processed' @ css_of manifest_entry))))"

text \<open>
  The imports relation of a manifest: an edge from a key to each path its entry imports.
  \<open>imports_resolve m path\<close>: every path reached from \<open>path\<close> along imports is a key.
  \<open>reaches_cycle m path\<close>: an import cycle is reached from \<open>path\<close>.
\<close>

definition import_edges :: "manifest_dict \<Rightarrow> (string \<times> string) set" where
  "import_edges m = {(p, q). \<exists>e. map_of m p = Some e \<and> q \<in> set (imports_of e)}"

definition imports_resolve :: "manifest_dict \<Rightarrow> string \<Rightarrow> bool" where
  "imports_resolve m path = (\<forall>q. (path, q) \<in> (import_edges m)\<^sup>* \<longrightarrow> map_of m q \<noteq> None)"

definition reaches_cycle :: "manifest_dict \<Rightarrow> string \<Rightarrow> bool" where
  "reaches_cycle m path = (\<exists>c. (path, c) \<in> (import_edges m)\<^sup>* \<and> (c, c) \<in> (import_edges m)\<^sup>+)"

section \<open>The operations of the loader\<close>

definition asset_not_found :: "settings \<Rightarrow> string \<Rightarrow> error" where
  "asset_not_found cfg path =
     RuntimeError (''Cannot find '' @ path @ '' in Vite manifest at '' @ DJANGO_VITE_MANIFEST_PATH cfg)"

definition polyfills_not_found :: "settings \<Rightarrow> error" where
  "polyfills_not_found cfg =
     RuntimeError (''Vite legacy polyfills not found in manifest at '' @ DJANGO_VITE_MANIFEST_PATH cfg)"

definition manifest_load_error :: "settings \<Rightarrow> string \<Rightarrow> error" where
  "manifest_load_error cfg msg =
     RuntimeError (''Cannot read Vite manifest file at '' @ DJANGO_VITE_MANIFEST_PATH cfg @ '' : '' @ msg)"

text \<open>
  The guard \<^verbatim>\<open>not self._manifest or path not in self._manifest\<close> (\<^verbatim>\<open>None\<close> and the
  empty dictionary are false) and, where it lets the call pass, the dictionary and the
  entry \<^verbatim>\<open>self._manifest[path]\<close>.
\<close>

definition lookup_manifest :: "loader \<Rightarrow> string \<Rightarrow> (manifest_dict \<times> manifest_entry) option" where
  "lookup_manifest self path =
     (case manifest self of
        None \<Rightarrow> None
      | Some m \<Rightarrow>
          if m = [] then None
          else (case map_of m path of None \<Rightarrow> None | Some manifest_entry \<Rightarrow> Some (m, manifest_entry)))"

definition generate_vite_asset ::
  "nat \<Rightarrow> env \<Rightarrow> settings \<Rightarrow> loader \<Rightarrow> string \<Rightarrow> (string \<times> string) list \<Rightarrow> (error + string) option" where
  "generate_vite_asset fuel ev cfg self path kwargs =
     (if DJANGO_VITE_DEV_MODE cfg then
        Some (case generate_vite_server_url ev cfg path of
                Inl err \<Rightarrow> Inl err
              | Inr url \<Rightarrow> Inr (generate_script_tag url (dict_merge [(''type'', ''module'')] kwargs)))
      else
        (case lookup_manifest self path of
           None \<Rightarrow> Some (Inl (asset_not_found cfg path))
         | Some (m, manifest_entry) \<Rightarrow>
             (let scripts_attrs = dict_merge [(''type'', ''module''), (''crossorigin'', '''')] kwargs in
              case generate_css_files_of_asset fuel ev cfg m path [] of
                None \<Rightarrow> None
              | Some (Inl err) \<Rightarrow> Some (Inl err)
              | Some (Inr (css_tags, already_processed)) \<Rightarrow>
                  Some (Inr (str_join ''\<newline>''
                    (css_tags @
                     [generate_script_tag
                        (generate_production_server_url ev cfg (entry_file manifest_entry))
                        scripts_attrs]))))))"

definition generate_vite_asset_url :: "env \<Rightarrow> settings \<Rightarrow> loader \<Rightarrow> string \<Rightarrow> error + string" where
  "generate_vite_asset_url ev cfg self path =
     (if DJANGO_VITE_DEV_MODE cfg then generate_vite_server_url ev cfg path
      else
        (case lookup_manifest self path of
           None \<Rightarrow> Inl (asset_not_found cfg path)
         | Some (m, manifest_entry) \<Rightarrow>
             Inr (generate_production_server_url ev cfg (entry_file manifest_entry))))"

text \<open>
  \<^verbatim>\<open>for path, content in self._manifest.items()\<close> returns at the first key that contains
  the motif and raises after the loop; on \<^verbatim>\<open>None\<close> the call of \<^verbatim>\<open>items\<close> raises
  \<^verbatim>\<open>AttributeError\<close>.
\<close>

fun polyfills_loop ::
  "env \<Rightarrow> settings \<Rightarrow> (string \<times> string) list \<Rightarrow> manifest_dict \<Rightarrow> error + string" where
  "polyfills_loop ev cfg scripts_attrs [] = Inl (polyfills_not_found cfg)"
| "polyfills_loop ev cfg scripts_attrs ((path, content) # rest) =
     (if str_contains (DJANGO_VITE_LEGACY_POLYFILLS_MOTIF cfg) path
      then Inr (generate_script_tag
                  (generate_production_server_url ev cfg (entry_file content)) scripts_attrs)
      else polyfills_loop ev cfg scripts_attrs rest)"

definition generate_vite_legacy_polyfills ::
  "env \<Rightarrow> settings \<Rightarrow> loader \<Rightarrow> (string \<times> string) list \<Rightarrow> error + string" where
  "generate_vite_legacy_polyfills ev cfg self kwargs =
     (if DJANGO_VITE_DEV_MODE cfg then Inr ''''
      else
        (let scripts_attrs = dict_merge [(''nomodule'', ''''), (''crossorigin'', '''')] kwargs in
         case manifest self of
           None \<Rightarrow> Inl AttributeError
         | Some m \<Rightarrow> polyfills_loop ev cfg scripts_attrs m))"




section \<open>The singleton and the template tags\<close>

text \<open>
  \<^verbatim>\<open>_parse_manifest\<close> turns every exception of reading and parsing into a
  \<^verbatim>\<open>RuntimeError\<close>. \<^verbatim>\<open>instance\<close> reads and writes the class attribute \<^verbatim>\<open>_instance\<close>: the
  model takes its value and returns the new one beside the result. The attribute is
  assigned before the manifest is parsed, as in the source.
\<close>

definition parse_manifest :: "env \<Rightarrow> settings \<Rightarrow> loader \<Rightarrow> error + loader" where
  "parse_manifest ev cfg self =
     (case read_file ev (DJANGO_VITE_MANIFEST_PATH cfg) of
        Inl msg \<Rightarrow> Inl (manifest_load_error cfg msg)
      | Inr manifest_content \<Rightarrow>
          (case json_loads ev manifest_content of
             Inl msg \<Rightarrow> Inl (manifest_load_error cfg msg)
           | Inr m \<Rightarrow> Inr (self\<lparr>manifest := Some m\<rparr>)))"

definition instance_of_loader :: "env \<Rightarrow> settings \<Rightarrow> loader option \<Rightarrow> (error + loader) \<times> loader option" where
  "instance_of_loader ev cfg cls_instance =
     (case cls_instance of
        Some self \<Rightarrow> (Inr self, Some self)
      | None \<Rightarrow>
          (let new = \<lparr>manifest = None\<rparr> in
           if \<not> DJANGO_VITE_DEV_MODE cfg then
             (case parse_manifest ev cfg new of
                Inl err \<Rightarrow> (Inl err, Some new)
              | Inr parsed \<Rightarrow> (Inr parsed, Some parsed))
           else (Inr new, Some new)))"



definition vite_asset_url ::
  "env \<Rightarrow> settings \<Rightarrow> loader option \<Rightarrow> string \<Rightarrow> (error + string) \<times> loader option" where
  "vite_asset_url ev cfg cls_instance path =
     (case instance_of_loader ev cfg cls_instance of
        (Inl err, cls_instance') \<Rightarrow> (Inl err, cls_instance')
      | (Inr self, cls_instance') \<Rightarrow> (generate_vite_asset_url ev cfg self path, cls_instance'))"

definition vite_legacy_polyfills ::
  "env \<Rightarrow> settings \<Rightarrow> loader option \<Rightarrow> (string \<times> string) list \<Rightarrow> (error + string) \<times> loader option" where
  "vite_legacy_polyfills ev cfg cls_instance kwargs =
     (case instance_of_loader ev cfg cls_instance of
        (Inl err, cls_instance') \<Rightarrow> (Inl err, cls_instance')
      | (Inr self, cls_instance') \<Rightarrow> (generate_vite_legacy_polyfills ev cfg self kwargs, cls_instance'))"



section \<open>Notions used to state the properties\<close>

text \<open>The link tag the walk appends for a CSS path.\<close>

abbreviation css_tag :: "env \<Rightarrow> settings \<Rightarrow> string \<Rightarrow> string" where
  "css_tag ev cfg css_path \<equiv> generate_stylesheet_tag (generate_production_server_url ev cfg css_path)"

text \<open>The result of the walk over paths, with every path replaced by its tag.\<close>

definition render_css ::
  "env \<Rightarrow> settings \<Rightarrow> (error + string list \<times> string list) option \<Rightarrow> (error + string list \<times> string list) option" where
  "render_css ev cfg r =
     (case r of
        None \<Rightarrow> None
      | Some (Inl e) \<Rightarrow> Some (Inl e)
      | Some (Inr (ps, a)) \<Rightarrow> Some (Inr (map (css_tag ev cfg) ps, a)))"

text \<open>
  What one call does to the list of processed paths: the paths \<open>ps\<close> it emits are pairwise
  different, none of them was processed before, and afterwards exactly they are added.
\<close>

definition css_inv :: "string list \<Rightarrow> string list \<Rightarrow> string list \<Rightarrow> bool" where
  "css_inv ap ps ap' = (distinct ps \<and> set ps \<inter> set ap = {} \<and> set ap' = set ap \<union> set ps)"

section \<open>A configuration and manifests for the examples\<close>

text \<open>
  A production configuration without the staticfiles application. On the URLs of the
  examples (a prefix that is empty or ends with a slash, joined with a relative path)
  \<^verbatim>\<open>urljoin\<close> is concatenation.
\<close>

definition demo_env :: env where
  "demo_env = \<lparr>urljoin = (\<lambda>base url. base @ url), staticfiles_installed = False,
      staticfiles_storage_url = (\<lambda>name. name), read_file = (\<lambda>name. Inl ''No such file or directory''),
      json_loads = (\<lambda>s. Inr [])\<rparr>"

definition demo_settings :: settings where
  "demo_settings = \<lparr>DJANGO_VITE_DEV_MODE = False,
      DJANGO_VITE_MANIFEST_PATH = ''static/manifest.json'',
      DJANGO_VITE_LEGACY_POLYFILLS_MOTIF = ''legacy-polyfills'',
      DJANGO_VITE_WS_CLIENT_URL = ''@vite/client'',
      DJANGO_VITE_REACT_REFRESH_URL = ''@react-refresh'',
      DJANGO_VITE_STATIC_URL_PREFIX = '''',
      DJANGO_VITE_DEV_SERVER_PROTOCOL = ''http'',
      DJANGO_VITE_DEV_SERVER_HOST = ''localhost'',
      DJANGO_VITE_DEV_SERVER_PORT = ''3000'',
      STATIC_URL = ''/static/''\<rparr>"

definition shared_css_manifest :: manifest_dict where
  "shared_css_manifest =
     [(''a.js'', \<lparr>entry_file = ''a.1.js'', entry_imports = Some [''b.js'', ''c.js''], entry_css = Some [''a.css'']\<rparr>),
      (''b.js'', \<lparr>entry_file = ''b.1.js'', entry_imports = None, entry_css = Some [''x.css'']\<rparr>),
      (''c.js'', \<lparr>entry_file = ''c.1.js'', entry_imports = None, entry_css = Some [''x.css'']\<rparr>)]"

definition ordered_css_manifest :: manifest_dict where
  "ordered_css_manifest =
     [(''a.js'', \<lparr>entry_file = ''a.1.js'', entry_imports = Some [''b.js'', ''c.js''], entry_css = Some [''a.css'']\<rparr>),
      (''b.js'', \<lparr>entry_file = ''b.1.js'', entry_imports = None, entry_css = Some [''b.css'']\<rparr>),
      (''c.js'', \<lparr>entry_file = ''c.1.js'', entry_imports = None, entry_css = Some [''c.css'']\<rparr>)]"

text \<open>The same configuration in development mode.\<close>

definition demo_dev_settings :: settings where
  "demo_dev_settings = demo_settings\<lparr>DJANGO_VITE_DEV_MODE := True\<rparr>"


text \<open>
  Manifests that are not well-formed: an import that is no key; an import cycle; an entry
  that imports itself before an import that is no key; an entry that imports a path that
  is no key before it imports itself.
\<close>

definition dangling_manifest :: manifest_dict where
  "dangling_manifest =
     [(''a.js'', \<lparr>entry_file = ''a.1.js'', entry_imports = Some [''missing.js''], entry_css = None\<rparr>)]"

definition cyclic_manifest :: manifest_dict where
  "cyclic_manifest =
     [(''a.js'', \<lparr>entry_file = ''a.1.js'', entry_imports = Some [''b.js''], entry_css = None\<rparr>),
      (''b.js'', \<lparr>entry_file = ''b.1.js'', entry_imports = Some [''a.js''], entry_css = None\<rparr>)]"

definition cycle_then_missing_manifest :: manifest_dict where
  "cycle_then_missing_manifest =
     [(''a.js'', \<lparr>entry_file = ''a.1.js'', entry_imports = Some [''a.js'', ''missing.js''], entry_css = None\<rparr>)]"

definition missing_then_cycle_manifest :: manifest_dict where
  "missing_then_cycle_manifest =
     [(''a.js'', \<lparr>entry_file = ''a.1.js'', entry_imports = Some [''missing.js'', ''a.js''], entry_css = None\<rparr>)]"

section \<open>Lemmas on the loops and the walk\<close>


lemma css_loop_new_css:
  "css_loop ev cfg cs tags ap = (tags @ map (css_tag ev cfg) (new_css cs ap), ap @ cs)"
  by (induction cs arbitrary: tags ap) auto

lemma new_css_set: "set (new_css cs ap) = set cs - set ap"
  by (induction cs arbitrary: ap) auto

lemma new_css_distinct: "distinct (new_css cs ap)"
  by (induction cs arbitrary: ap) (auto simp: new_css_set)

lemma imports_loop_mono:
  assumes "\<And>q a r. f q a = Some r \<Longrightarrow> g q a = Some r"
    and "imports_loop f qs t ap = Some r"
  shows "imports_loop g qs t ap = Some r"
  using assms(2)
proof (induction qs arbitrary: t ap)
  case Nil
  then show ?case by simp
next
  case (Cons q qs)
  then show ?case
    by (auto split: option.splits sum.splits dest!: assms(1))
qed

lemma imports_loop_acc:
  "imports_loop f qs t ap =
     (case imports_loop f qs [] ap of
        None \<Rightarrow> None
      | Some (Inl e) \<Rightarrow> Some (Inl e)
      | Some (Inr (ts, a)) \<Rightarrow> Some (Inr (t @ ts, a)))"
proof (induction qs arbitrary: t ap)
  case Nil
  then show ?case by simp
next
  case (Cons q qs)
  show ?case
  proof (cases "f q ap")
    case None
    then show ?thesis by simp
  next
    case (Some r)
    show ?thesis
    proof (cases r)
      case (Inl e)
      with Some show ?thesis by simp
    next
      case (Inr pr)
      obtain ts1 ap1 where pr: "pr = (ts1, ap1)" by (cases pr)
      have a: "imports_loop f qs (t @ ts1) ap1 =
        (case imports_loop f qs [] ap1 of
           None \<Rightarrow> None
         | Some (Inl e) \<Rightarrow> Some (Inl e)
         | Some (Inr (ts, a)) \<Rightarrow> Some (Inr ((t @ ts1) @ ts, a)))"
        by (rule Cons.IH)
      have b: "imports_loop f qs ts1 ap1 =
        (case imports_loop f qs [] ap1 of
           None \<Rightarrow> None
         | Some (Inl e) \<Rightarrow> Some (Inl e)
         | Some (Inr (ts, a)) \<Rightarrow> Some (Inr (ts1 @ ts, a)))"
        by (rule Cons.IH)
      have "imports_loop f (q # qs) t ap = imports_loop f qs (t @ ts1) ap1"
        using Some Inr pr by simp
      moreover have "imports_loop f (q # qs) [] ap = imports_loop f qs ts1 ap1"
        using Some Inr pr by simp
      ultimately show ?thesis
        unfolding a b by (cases "imports_loop f qs [] ap1") (auto split: sum.splits)
    qed
  qed
qed

lemma imports_loop_accD:
  "imports_loop f qs t ap = Some (Inr (t', ap')) \<Longrightarrow>
     \<exists>ts. t' = t @ ts \<and> imports_loop f qs [] ap = Some (Inr (ts, ap'))"
  by (subst (asm) imports_loop_acc) (auto split: option.splits sum.splits)

lemma walk_mono_Suc:
  "generate_css_files_of_asset n ev cfg m p ap = Some r \<Longrightarrow>
   generate_css_files_of_asset (Suc n) ev cfg m p ap = Some r"
proof (induction n arbitrary: p ap r)
  case 0
  then show ?case by simp
next
  case (Suc n)
  show ?case
  proof (cases "map_of m p")
    case None
    with Suc.prems show ?thesis by simp
  next
    case (Some e)
    have step: "\<And>r'. imports_loop (generate_css_files_of_asset n ev cfg m) (imports_of e) [] ap = Some r'
      \<Longrightarrow> imports_loop (generate_css_files_of_asset (Suc n) ev cfg m) (imports_of e) [] ap = Some r'"
      by (rule imports_loop_mono[where f = "generate_css_files_of_asset n ev cfg m"]) (rule Suc.IH)
    from Suc.prems Some obtain r' where
      r': "imports_loop (generate_css_files_of_asset n ev cfg m) (imports_of e) [] ap = Some r'"
      by (auto split: option.splits)
    from step[OF r'] Suc.prems Some r' show ?thesis
      by (simp del: generate_css_files_of_asset.simps add: generate_css_files_of_asset.simps(2)[of "Suc n"] generate_css_files_of_asset.simps(2)[of n])
  qed
qed

lemma walk_mono:
  "generate_css_files_of_asset n ev cfg m p ap = Some r \<Longrightarrow> n \<le> k \<Longrightarrow>
   generate_css_files_of_asset k ev cfg m p ap = Some r"
  by (induction k) (auto simp: le_Suc_eq dest: walk_mono_Suc simp del: generate_css_files_of_asset.simps)


lemma render_css_simps [simp]:
  "render_css ev cfg None = None"
  "render_css ev cfg (Some (Inl e)) = Some (Inl e)"
  "render_css ev cfg (Some (Inr (ps, a))) = Some (Inr (map (css_tag ev cfg) ps, a))"
  by (simp_all add: render_css_def)

lemma imports_loop_render:
  assumes "\<And>q a. f q a = render_css ev cfg (g q a)"
  shows "imports_loop f qs (map (css_tag ev cfg) t) ap = render_css ev cfg (imports_loop g qs t ap)"
proof (induction qs arbitrary: t ap)
  case Nil
  then show ?case by simp
next
  case (Cons q qs)
  show ?case
  proof (cases "g q ap")
    case None
    then show ?thesis using assms[of q ap] by simp
  next
    case (Some r)
    show ?thesis
    proof (cases r)
      case (Inl e)
      with Some show ?thesis using assms[of q ap] by simp
    next
      case (Inr pr)
      obtain ps1 ap1 where pr: "pr = (ps1, ap1)" by (cases pr)
      have "imports_loop f qs (map (css_tag ev cfg) (t @ ps1)) ap1
              = render_css ev cfg (imports_loop g qs (t @ ps1) ap1)"
        by (rule Cons.IH)
      then show ?thesis using Some Inr pr assms[of q ap] by simp
    qed
  qed
qed

lemma walk_render:
  "generate_css_files_of_asset n ev cfg m p ap = render_css ev cfg (css_paths_of_asset n m p ap)"
proof (induction n arbitrary: p ap)
  case 0
  then show ?case by simp
next
  case (Suc n)
  show ?case
  proof (cases "map_of m p")
    case None
    then show ?thesis by simp
  next
    case (Some e)
    have "imports_loop (generate_css_files_of_asset n ev cfg m) (imports_of e) (map (css_tag ev cfg) []) ap
            = render_css ev cfg (imports_loop (css_paths_of_asset n m) (imports_of e) [] ap)"
      by (rule imports_loop_render) (rule Suc.IH)
    then show ?thesis using Some
      by (cases "imports_loop (css_paths_of_asset n m) (imports_of e) [] ap")
         (auto simp: css_loop_new_css split: sum.splits)
  qed
qed


lemma imports_loop_inv:
  assumes f: "\<And>q a ps a'. f q a = Some (Inr (ps, a')) \<Longrightarrow> css_inv a ps a'"
  shows "imports_loop f qs [] ap = Some (Inr (ps, ap')) \<Longrightarrow> css_inv ap ps ap'"
proof (induction qs arbitrary: ap ps)
  case Nil
  then show ?case by (simp add: css_inv_def)
next
  case (Cons q qs)
  from Cons.prems obtain ps1 ap1 where q: "f q ap = Some (Inr (ps1, ap1))"
    and rest: "imports_loop f qs ps1 ap1 = Some (Inr (ps, ap'))"
    by (auto split: option.splits sum.splits)
  from imports_loop_accD[OF rest] obtain ps2 where ps: "ps = ps1 @ ps2"
    and r2: "imports_loop f qs [] ap1 = Some (Inr (ps2, ap'))" by blast
  from f[OF q] Cons.IH[OF r2] show ?case
    unfolding css_inv_def ps by auto
qed

lemma css_paths_inv:
  "css_paths_of_asset n m p ap = Some (Inr (ps, ap')) \<Longrightarrow> css_inv ap ps ap'"
proof (induction n arbitrary: p ap ps ap')
  case 0
  then show ?case by simp
next
  case (Suc n)
  from Suc.prems obtain e ps1 ap1 where e: "map_of m p = Some e"
    and l: "imports_loop (css_paths_of_asset n m) (imports_of e) [] ap = Some (Inr (ps1, ap1))"
    and ps: "ps = ps1 @ new_css (css_of e) ap1" and ap': "ap' = ap1 @ css_of e"
    by (auto split: option.splits sum.splits)
  have "css_inv ap ps1 ap1"
    by (rule imports_loop_inv[OF _ l]) (rule Suc.IH)
  then show ?case
    unfolding css_inv_def ps ap' by (auto simp: new_css_set new_css_distinct)
qed


lemma imports_loop_total:
  "(\<And>q a. q \<in> set qs \<Longrightarrow> f q a \<noteq> None) \<Longrightarrow> imports_loop f qs t a \<noteq> None"
proof (induction qs arbitrary: t a)
  case Nil
  then show ?case by simp
next
  case (Cons q qs)
  have "f q a \<noteq> None" by (rule Cons.prems) simp
  moreover have "\<And>t' a'. imports_loop f qs t' a' \<noteq> None"
    by (rule Cons.IH) (rule Cons.prems, simp)
  ultimately show ?case by (auto split: option.splits sum.splits)
qed

lemma imports_loop_Inl:
  "imports_loop f qs t a = Some (Inl e) \<Longrightarrow> \<exists>q\<in>set qs. \<exists>a'. f q a' = Some (Inl e)"
proof (induction qs arbitrary: t a)
  case Nil
  then show ?case by simp
next
  case (Cons q qs)
  then show ?case by (fastforce split: option.splits sum.splits)
qed

lemma imports_loop_Inr:
  "imports_loop f qs t a = Some (Inr r) \<Longrightarrow> q \<in> set qs \<Longrightarrow> \<exists>a' r'. f q a' = Some (Inr r')"
proof (induction qs arbitrary: t a)
  case Nil
  then show ?case by simp
next
  case (Cons q' qs)
  then show ?case by (fastforce split: option.splits sum.splits)
qed

lemma css_paths_mono_Suc:
  "css_paths_of_asset n m p ap = Some r \<Longrightarrow> css_paths_of_asset (Suc n) m p ap = Some r"
proof (induction n arbitrary: p ap r)
  case 0
  then show ?case by simp
next
  case (Suc n)
  show ?case
  proof (cases "map_of m p")
    case None
    with Suc.prems show ?thesis by simp
  next
    case (Some e)
    have step: "\<And>r'. imports_loop (css_paths_of_asset n m) (imports_of e) [] ap = Some r'
      \<Longrightarrow> imports_loop (css_paths_of_asset (Suc n) m) (imports_of e) [] ap = Some r'"
      by (rule imports_loop_mono[where f = "css_paths_of_asset n m"]) (rule Suc.IH)
    from Suc.prems Some obtain r' where
      r': "imports_loop (css_paths_of_asset n m) (imports_of e) [] ap = Some r'"
      by (auto split: option.splits)
    from step[OF r'] Suc.prems Some r' show ?thesis
      by (simp del: css_paths_of_asset.simps add: css_paths_of_asset.simps(2)[of "Suc n"] css_paths_of_asset.simps(2)[of n])
  qed
qed

lemma css_paths_mono:
  "css_paths_of_asset n m p ap = Some r \<Longrightarrow> n \<le> k \<Longrightarrow> css_paths_of_asset k m p ap = Some r"
  by (induction k) (auto simp: le_Suc_eq dest: css_paths_mono_Suc simp del: css_paths_of_asset.simps)

lemma import_edgesI:
  "map_of m p = Some e \<Longrightarrow> q \<in> set (imports_of e) \<Longrightarrow> (p, q) \<in> import_edges m"
  by (auto simp: import_edges_def)

lemma import_edgesE:
  "(p, q) \<in> import_edges m \<Longrightarrow> map_of m p = Some e \<Longrightarrow> q \<in> set (imports_of e)"
  by (auto simp: import_edges_def)

lemma finite_import_edges: "finite (import_edges m)"
proof -
  have "import_edges m \<subseteq> (\<Union>(p, e)\<in>set m. Pair p ` set (imports_of e))"
    by (auto simp: import_edges_def dest!: map_of_SomeD)
  moreover have "finite (\<Union>(p, e)\<in>set m. Pair p ` set (imports_of e))"
    by auto
  ultimately show ?thesis by (rule finite_subset)
qed

lemma uniform_fuel:
  fixes P :: "nat \<Rightarrow> 'a \<Rightarrow> bool"
  assumes mono: "\<And>n k q. P n q \<Longrightarrow> n \<le> k \<Longrightarrow> P k q"
  shows "(\<And>q. q \<in> set qs \<Longrightarrow> \<exists>n. P n q) \<Longrightarrow> \<exists>N. \<forall>q\<in>set qs. P N q"
proof (induction qs)
  case Nil
  then show ?case by simp
next
  case (Cons q qs)
  from Cons.prems[of q] obtain n where n: "P n q" by auto
  from Cons.IH Cons.prems obtain N where N: "\<forall>q\<in>set qs. P N q" by auto
  have "P (max n N) q"
    by (rule mono[OF n]) simp
  moreover have "P (max n N) x" if "x \<in> set qs" for x
  proof (rule mono)
    from N that show "P N x" by blast
  qed simp
  ultimately have "\<forall>x\<in>set (q # qs). P (max n N) x" by simp
  then show ?case by blast
qed

lemma css_paths_terminates:
  assumes "acyclic (import_edges m)"
  shows "\<exists>n. \<forall>ap. css_paths_of_asset n m p ap \<noteq> None"
proof -
  have wf: "wf ((import_edges m)\<inverse>)"
    using finite_import_edges assms by (rule finite_acyclic_wf_converse)
  show ?thesis
  proof (induction p rule: wf_induct_rule[OF wf])
    case (1 p)
    show ?case
    proof (cases "map_of m p")
      case None
      then have "\<forall>ap. css_paths_of_asset (Suc 0) m p ap \<noteq> None" by simp
      then show ?thesis by blast
    next
      case (Some e)
      have "\<exists>N. \<forall>q\<in>set (imports_of e). \<forall>ap. css_paths_of_asset N m q ap \<noteq> None"
      proof (rule uniform_fuel[where P = "\<lambda>n q. \<forall>ap. css_paths_of_asset n m q ap \<noteq> None"])
        fix n k q
        assume a: "\<forall>ap. css_paths_of_asset n m q ap \<noteq> None" and le: "n \<le> k"
        show "\<forall>ap. css_paths_of_asset k m q ap \<noteq> None"
        proof
          fix ap
          from a obtain r where "css_paths_of_asset n m q ap = Some r" by auto
          from css_paths_mono[OF this le] show "css_paths_of_asset k m q ap \<noteq> None" by simp
        qed
      next
        fix q
        assume "q \<in> set (imports_of e)"
        with Some have "(q, p) \<in> (import_edges m)\<inverse>" by (auto intro: import_edgesI)
        then show "\<exists>n. \<forall>ap. css_paths_of_asset n m q ap \<noteq> None" by (rule 1)
      qed
      then obtain N where N: "\<And>q ap. q \<in> set (imports_of e) \<Longrightarrow> css_paths_of_asset N m q ap \<noteq> None"
        by blast
      have "\<forall>ap. css_paths_of_asset (Suc N) m p ap \<noteq> None"
      proof
        fix ap
        have "imports_loop (css_paths_of_asset N m) (imports_of e) [] ap \<noteq> None"
          by (rule imports_loop_total) (rule N)
        then show "css_paths_of_asset (Suc N) m p ap \<noteq> None"
          using Some by (auto split: option.splits sum.splits)
      qed
      then show ?thesis by blast
    qed
  qed
qed

lemma css_paths_Inl:
  "css_paths_of_asset n m p ap = Some (Inl err) \<Longrightarrow>
     \<exists>k. err = KeyError k \<and> map_of m k = None \<and> (p, k) \<in> (import_edges m)\<^sup>*"
proof (induction n arbitrary: p ap)
  case 0
  then show ?case by simp
next
  case (Suc n)
  show ?case
  proof (cases "map_of m p")
    case None
    with Suc.prems show ?thesis by auto
  next
    case (Some e)
    with Suc.prems have "imports_loop (css_paths_of_asset n m) (imports_of e) [] ap = Some (Inl err)"
      by (auto split: option.splits sum.splits)
    from imports_loop_Inl[OF this] obtain q a' where q: "q \<in> set (imports_of e)"
      and "css_paths_of_asset n m q a' = Some (Inl err)" by blast
    from Suc.IH[OF this(2)] obtain k where k: "err = KeyError k" "map_of m k = None"
      "(q, k) \<in> (import_edges m)\<^sup>*" by blast
    from Some q have "(p, q) \<in> import_edges m" by (rule import_edgesI)
    with k show ?thesis by (auto intro: converse_rtrancl_into_rtrancl)
  qed
qed

lemma css_paths_Inr:
  "css_paths_of_asset n m p ap = Some (Inr r) \<Longrightarrow> imports_resolve m p \<and> \<not> reaches_cycle m p"
proof (induction n arbitrary: p ap r)
  case 0
  then show ?case by simp
next
  case (Suc n)
  from Suc.prems obtain e r' where e: "map_of m p = Some e"
    and l: "imports_loop (css_paths_of_asset n m) (imports_of e) [] ap = Some (Inr r')"
    by (auto split: option.splits sum.splits)
  have sub: "imports_resolve m q \<and> \<not> reaches_cycle m q" if "(p, q) \<in> import_edges m" for q
  proof -
    from that e have "q \<in> set (imports_of e)" by (rule import_edgesE)
    from imports_loop_Inr[OF l this] obtain a' r'' where "css_paths_of_asset n m q a' = Some (Inr r'')"
      by blast
    then show ?thesis by (rule Suc.IH)
  qed
  have "imports_resolve m p"
    unfolding imports_resolve_def
  proof (intro allI impI)
    fix x
    assume "(p, x) \<in> (import_edges m)\<^sup>*"
    then show "map_of m x \<noteq> None"
    proof (cases rule: converse_rtranclE)
      case base
      with e show ?thesis by simp
    next
      case (step q)
      with sub[of q] show ?thesis by (auto simp: imports_resolve_def)
    qed
  qed
  moreover have "\<not> reaches_cycle m p"
  proof
    assume "reaches_cycle m p"
    then obtain c where pc: "(p, c) \<in> (import_edges m)\<^sup>*" and cc: "(c, c) \<in> (import_edges m)\<^sup>+"
      by (auto simp: reaches_cycle_def)
    from pc show False
    proof (cases rule: converse_rtranclE)
      case base
      with cc have "(p, p) \<in> (import_edges m)\<^sup>+" by simp
      then obtain q where pq: "(p, q) \<in> import_edges m" and qp: "(q, p) \<in> (import_edges m)\<^sup>*"
        by (auto dest: tranclD)
      from qp \<open>(p, p) \<in> (import_edges m)\<^sup>+\<close> have "reaches_cycle m q"
        by (auto simp: reaches_cycle_def)
      with sub[OF pq] show False by simp
    next
      case (step q)
      with cc have "reaches_cycle m q" by (auto simp: reaches_cycle_def)
      with sub[OF step(1)] show False by simp
    qed
  qed
  ultimately show ?case by simp
qed

lemma demo_production: "\<not> DJANGO_VITE_DEV_MODE demo_settings"
  by (simp add: demo_settings_def)

lemma demo_url: "generate_production_server_url demo_env demo_settings p = p"
  by (simp add: generate_production_server_url_def demo_env_def demo_settings_def)

lemma walk_Inr_paths:
  assumes "generate_css_files_of_asset n ev cfg m path ap = Some (Inr (tags, ap'))"
  shows "\<exists>ps. css_paths_of_asset n m path ap = Some (Inr (ps, ap')) \<and> tags = map (css_tag ev cfg) ps"
  using assms unfolding walk_render
  by (auto simp: render_css_def split: option.splits sum.splits)

lemma lookup_manifest_SomeD:
  "lookup_manifest self path = Some (m, e) \<Longrightarrow> manifest self = Some m \<and> map_of m path = Some e"
  by (auto simp: lookup_manifest_def split: option.splits if_splits)

lemma generate_vite_asset_production_Inr:
  assumes "\<not> DJANGO_VITE_DEV_MODE cfg"
    and "generate_vite_asset n ev cfg self path kwargs = Some (Inr out)"
  shows "\<exists>m e tags ap'. lookup_manifest self path = Some (m, e)
           \<and> generate_css_files_of_asset n ev cfg m path [] = Some (Inr (tags, ap'))
           \<and> out = str_join ''\<newline>'' (tags @
                 [generate_script_tag (generate_production_server_url ev cfg (entry_file e))
                    (dict_merge [(''type'', ''module''), (''crossorigin'', '''')] kwargs)])"
  using assms
  by (auto simp: generate_vite_asset_def asset_not_found_def split: option.splits sum.splits prod.splits)

lemma walk_None_iff:
  "generate_css_files_of_asset n ev cfg m p ap = None \<longleftrightarrow> css_paths_of_asset n m p ap = None"
  unfolding walk_render by (auto simp: render_css_def split: option.splits sum.splits)

lemma walk_Inl_iff:
  "generate_css_files_of_asset n ev cfg m p ap = Some (Inl err) \<longleftrightarrow> css_paths_of_asset n m p ap = Some (Inl err)"
  unfolding walk_render by (auto simp: render_css_def split: option.splits sum.splits)

lemma walk_terminates:
  assumes "acyclic (import_edges m)"
  shows "\<exists>n. \<forall>k\<ge>n. \<forall>ap. generate_css_files_of_asset k ev cfg m p ap \<noteq> None"
proof -
  from css_paths_terminates[OF assms] obtain n where n: "\<And>ap. css_paths_of_asset n m p ap \<noteq> None"
    by blast
  have "\<forall>k\<ge>n. \<forall>ap. generate_css_files_of_asset k ev cfg m p ap \<noteq> None"
  proof (intro allI impI)
    fix k ap
    assume le: "n \<le> k"
    from n[of ap] obtain r where "css_paths_of_asset n m p ap = Some r" by auto
    from css_paths_mono[OF this le] show "generate_css_files_of_asset k ev cfg m p ap \<noteq> None"
      by (simp add: walk_None_iff)
  qed
  then show ?thesis by blast
qed

lemma walk_Inl:
  "generate_css_files_of_asset n ev cfg m p ap = Some (Inl err) \<Longrightarrow>
     \<exists>k. err = KeyError k \<and> map_of m k = None \<and> (p, k) \<in> (import_edges m)\<^sup>*"
  unfolding walk_Inl_iff by (rule css_paths_Inl)

lemma walk_Inr:
  "generate_css_files_of_asset n ev cfg m p ap = Some (Inr r) \<Longrightarrow> imports_resolve m p \<and> \<not> reaches_cycle m p"
proof -
  assume a: "generate_css_files_of_asset n ev cfg m p ap = Some (Inr r)"
  obtain tags ap' where "r = (tags, ap')" by (cases r)
  with a walk_Inr_paths[of n ev cfg m p ap tags ap'] obtain ps where
    "css_paths_of_asset n m p ap = Some (Inr (ps, ap'))" by blast
  then show ?thesis by (rule css_paths_Inr)
qed


lemma walk_raises_KeyError:
  assumes "acyclic (import_edges m)" and "\<not> imports_resolve m p"
  shows "\<exists>n key. (\<forall>k\<ge>n. generate_css_files_of_asset k ev cfg m p ap = Some (Inl (KeyError key)))
           \<and> map_of m key = None \<and> (p, key) \<in> (import_edges m)\<^sup>*"
proof -
  from walk_terminates[OF assms(1)] obtain n where
    n: "generate_css_files_of_asset n ev cfg m p ap \<noteq> None" by blast
  then obtain r where r: "generate_css_files_of_asset n ev cfg m p ap = Some r" by auto
  show ?thesis
  proof (cases r)
    case (Inl err)
    with r walk_Inl[of n ev cfg m p ap err] obtain key where
      key: "err = KeyError key" "map_of m key = None" "(p, key) \<in> (import_edges m)\<^sup>*" by blast
    with r Inl have "\<forall>k\<ge>n. generate_css_files_of_asset k ev cfg m p ap = Some (Inl (KeyError key))"
      by (auto intro: walk_mono)
    with key show ?thesis by blast
  next
    case (Inr pr)
    with r walk_Inr[of n ev cfg m p ap pr] assms(2) show ?thesis by simp
  qed
qed

lemma walk_diverges:
  assumes "reaches_cycle m p" and "imports_resolve m p"
  shows "generate_css_files_of_asset n ev cfg m p ap = None"
proof (cases "generate_css_files_of_asset n ev cfg m p ap")
  case None
  then show ?thesis .
next
  case (Some r)
  show ?thesis
  proof (cases r)
    case (Inl err)
    with Some walk_Inl[of n ev cfg m p ap err] assms(2) show ?thesis
      by (auto simp: imports_resolve_def)
  next
    case (Inr pr)
    with Some walk_Inr[of n ev cfg m p ap pr] assms(1) show ?thesis by simp
  qed
qed

lemma acyclic_import_edgesI:
  fixes rank :: "string \<Rightarrow> nat"
  assumes "\<And>p e q. map_of m p = Some e \<Longrightarrow> q \<in> set (imports_of e) \<Longrightarrow> rank q < rank p"
  shows "acyclic (import_edges m)"
proof -
  have "(import_edges m)\<inverse> \<subseteq> measure rank"
    using assms by (auto simp: import_edges_def)
  then have "wf ((import_edges m)\<inverse>)" by (rule wf_subset[OF wf_measure])
  then have "acyclic ((import_edges m)\<inverse>)" by (rule wf_acyclic)
  then show ?thesis by simp
qed

lemma imports_resolveI:
  assumes "map_of m path \<noteq> None"
    and "\<And>p e q. map_of m p = Some e \<Longrightarrow> q \<in> set (imports_of e) \<Longrightarrow> map_of m q \<noteq> None"
  shows "imports_resolve m path"
  unfolding imports_resolve_def
proof (intro allI impI)
  fix q
  assume "(path, q) \<in> (import_edges m)\<^sup>*"
  then show "map_of m q \<noteq> None"
    by (induction rule: rtrancl_induct) (use assms in \<open>auto simp: import_edges_def\<close>)
qed

lemma imports_loop_steps:
  "imports_loop f qs [] ap = Some (Inr (ts, ap')) \<Longrightarrow>
     \<exists>tss aps. length tss = length qs \<and> length aps = Suc (length qs) \<and> aps ! 0 = ap \<and> last aps = ap'
       \<and> (\<forall>i<length qs. f (qs ! i) (aps ! i) = Some (Inr (tss ! i, aps ! Suc i)))
       \<and> ts = concat tss"
proof (induction qs arbitrary: ap ts)
  case Nil
  then have "length ([]::string list list) = length ([]::string list) \<and> length [ap] = Suc (length ([]::string list))
     \<and> [ap] ! 0 = ap \<and> last [ap] = ap'
     \<and> (\<forall>i<length ([]::string list). f ([] ! i) ([ap] ! i) = Some (Inr ([] ! i, [ap] ! Suc i))) \<and> ts = concat []"
    by simp
  then show ?case by blast
next
  case (Cons q qs)
  from Cons.prems obtain ts1 ap1 where q: "f q ap = Some (Inr (ts1, ap1))"
    and rest: "imports_loop f qs ts1 ap1 = Some (Inr (ts, ap'))"
    by (auto split: option.splits sum.splits)
  from imports_loop_accD[OF rest] obtain ts2 where ts: "ts = ts1 @ ts2"
    and r2: "imports_loop f qs [] ap1 = Some (Inr (ts2, ap'))" by blast
  from Cons.IH[OF r2] obtain tss aps where ih: "length tss = length qs" "length aps = Suc (length qs)"
    "aps ! 0 = ap1" "last aps = ap'"
    "\<forall>i<length qs. f (qs ! i) (aps ! i) = Some (Inr (tss ! i, aps ! Suc i))" "ts2 = concat tss"
    by blast
  have steps: "\<forall>i<length (q # qs). f ((q # qs) ! i) ((ap # aps) ! i) = Some (Inr ((ts1 # tss) ! i, (ap # aps) ! Suc i))"
  proof (intro allI impI)
    fix i
    assume "i < length (q # qs)"
    then show "f ((q # qs) ! i) ((ap # aps) ! i) = Some (Inr ((ts1 # tss) ! i, (ap # aps) ! Suc i))"
      using q ih(3,5) by (cases i) auto
  qed
  have "aps \<noteq> []" using ih(2) by auto
  then have "length (ts1 # tss) = length (q # qs) \<and> length (ap # aps) = Suc (length (q # qs))
      \<and> (ap # aps) ! 0 = ap \<and> last (ap # aps) = ap'
      \<and> (\<forall>i<length (q # qs). f ((q # qs) ! i) ((ap # aps) ! i) = Some (Inr ((ts1 # tss) ! i, (ap # aps) ! Suc i)))
      \<and> ts = concat (ts1 # tss)"
    using ih steps ts by simp
  then show ?case by blast
qed

lemma ordered_walk:
  "generate_css_files_of_asset (Suc (Suc 0)) demo_env demo_settings ordered_css_manifest ''a.js'' []
     = Some (Inr ([generate_stylesheet_tag ''b.css'', generate_stylesheet_tag ''c.css'',
                   generate_stylesheet_tag ''a.css''], [''b.css'', ''c.css'', ''a.css'']))"
  by (simp add: demo_url ordered_css_manifest_def imports_of_def css_of_def)





lemma generate_vite_asset_production:
  assumes "\<not> DJANGO_VITE_DEV_MODE cfg" and "manifest self = Some m" and "map_of m path = Some e"
  shows "generate_vite_asset n ev cfg self path kwargs =
     (case generate_css_files_of_asset n ev cfg m path [] of
        None \<Rightarrow> None
      | Some (Inl err) \<Rightarrow> Some (Inl err)
      | Some (Inr (css_tags, seen)) \<Rightarrow>
          Some (Inr (str_join ''\<newline>'' (css_tags @
                 [generate_script_tag (generate_production_server_url ev cfg (entry_file e))
                    (dict_merge [(''type'', ''module''), (''crossorigin'', '''')] kwargs)]))))"
  using assms by (auto simp: generate_vite_asset_def lookup_manifest_def split: option.splits sum.splits)

lemma ordered_acyclic: "acyclic (import_edges ordered_css_manifest)"
  by (rule acyclic_import_edgesI[where rank = "\<lambda>p. if p = ''a.js'' then 1 else 0"])
     (auto simp: ordered_css_manifest_def imports_of_def split: if_splits)

lemma ordered_resolve: "imports_resolve ordered_css_manifest ''a.js''"
  by (rule imports_resolveI) (auto simp: ordered_css_manifest_def imports_of_def split: if_splits)



lemma generate_vite_server_url_empty:
  "urljoin ev (STATIC_URL cfg) (DJANGO_VITE_STATIC_URL_PREFIX cfg) = [] \<Longrightarrow>
     generate_vite_server_url ev cfg path = Inl IndexError"
  by (simp add: generate_vite_server_url_def)








lemma demo_dev_motif: "DJANGO_VITE_LEGACY_POLYFILLS_MOTIF demo_dev_settings = ''legacy-polyfills''"
  by (simp add: demo_dev_settings_def demo_settings_def)

lemma demo_manifest_path: "DJANGO_VITE_MANIFEST_PATH demo_settings = ''static/manifest.json''"
  by (simp add: demo_settings_def)

lemma lookup_manifest_loaded:
  "manifest self = Some m \<Longrightarrow>
     lookup_manifest self path = (case map_of m path of None \<Rightarrow> None | Some e \<Rightarrow> Some (m, e))"
  by (cases m) (auto simp: lookup_manifest_def split: option.splits)

lemma generate_vite_asset_absent:
  assumes "\<not> DJANGO_VITE_DEV_MODE cfg" and "manifest self = Some m" and "map_of m path = None"
  shows "generate_vite_asset n ev cfg self path kwargs = Some (Inl (asset_not_found cfg path))"
  using assms by (simp add: generate_vite_asset_def lookup_manifest_loaded)




lemma generate_vite_asset_returns:
  assumes "\<not> DJANGO_VITE_DEV_MODE cfg" and "manifest self = Some m"
    and "generate_css_files_of_asset n ev cfg m path [] \<noteq> None"
  shows "generate_vite_asset n ev cfg self path kwargs \<noteq> None"
proof (cases "map_of m path")
  case None
  from generate_vite_asset_absent[OF assms(1,2) None] show ?thesis by simp
next
  case (Some e)
  show ?thesis
    unfolding generate_vite_asset_production[OF assms(1,2) Some]
    using assms(3) by (auto split: option.splits sum.splits)
qed

lemma generate_vite_asset_diverges:
  assumes "\<not> DJANGO_VITE_DEV_MODE cfg" and "manifest self = Some m"
    and "reaches_cycle m path" and "imports_resolve m path"
  shows "generate_vite_asset n ev cfg self path kwargs = None"
proof -
  from assms(4) obtain e where e: "map_of m path = Some e"
    by (auto simp: imports_resolve_def)
  show ?thesis
    unfolding generate_vite_asset_production[OF assms(1,2) e]
    by (simp add: walk_diverges[OF assms(3,4)])
qed

lemma generate_vite_asset_Inl:
  assumes "\<not> DJANGO_VITE_DEV_MODE cfg" and "manifest self = Some m" and "map_of m path = Some e"
    and "generate_vite_asset n ev cfg self path kwargs = Some (Inl err)"
  shows "\<exists>key. err = KeyError key \<and> map_of m key = None \<and> (path, key) \<in> (import_edges m)\<^sup>*"
proof -
  from assms(4) have "generate_css_files_of_asset n ev cfg m path [] = Some (Inl err)"
    unfolding generate_vite_asset_production[OF assms(1-3)]
    by (auto split: option.splits sum.splits)
  then show ?thesis by (rule walk_Inl)
qed

lemma generate_vite_asset_raises_KeyError:
  assumes "\<not> DJANGO_VITE_DEV_MODE cfg" and "manifest self = Some m" and "map_of m path = Some e"
    and "acyclic (import_edges m)" and "\<not> imports_resolve m path"
  shows "\<exists>n key. map_of m key = None \<and> (path, key) \<in> (import_edges m)\<^sup>*
           \<and> (\<forall>k\<ge>n. generate_vite_asset k ev cfg self path kwargs = Some (Inl (KeyError key)))"
proof -
  from walk_raises_KeyError[OF assms(4,5), of ev cfg "[]"] obtain n key where
    w: "\<forall>k\<ge>n. generate_css_files_of_asset k ev cfg m path [] = Some (Inl (KeyError key))"
    and key: "map_of m key = None" "(path, key) \<in> (import_edges m)\<^sup>*" by blast
  have "\<forall>k\<ge>n. generate_vite_asset k ev cfg self path kwargs = Some (Inl (KeyError key))"
    unfolding generate_vite_asset_production[OF assms(1-3)] using w by simp
  with key show ?thesis by blast
qed

lemma cyclic_reaches_cycle: "reaches_cycle cyclic_manifest ''a.js''"
proof -
  have "(''a.js'', ''b.js'') \<in> import_edges cyclic_manifest"
    by (simp add: import_edges_def cyclic_manifest_def imports_of_def)
  moreover have "(''b.js'', ''a.js'') \<in> import_edges cyclic_manifest"
    by (simp add: import_edges_def cyclic_manifest_def imports_of_def)
  ultimately have "(''a.js'', ''a.js'') \<in> (import_edges cyclic_manifest)\<^sup>+" by (rule trancl_into_trancl2[OF _ r_into_trancl])
  then show ?thesis unfolding reaches_cycle_def by blast
qed

lemma cyclic_resolve: "imports_resolve cyclic_manifest ''a.js''"
  by (rule imports_resolveI) (auto simp: cyclic_manifest_def imports_of_def split: if_splits)

lemma missing_then_cycle_reaches_cycle: "reaches_cycle missing_then_cycle_manifest ''a.js''"
proof -
  have "(''a.js'', ''a.js'') \<in> import_edges missing_then_cycle_manifest"
    by (simp add: import_edges_def missing_then_cycle_manifest_def imports_of_def)
  then have "(''a.js'', ''a.js'') \<in> (import_edges missing_then_cycle_manifest)\<^sup>+" by (rule r_into_trancl)
  then show ?thesis unfolding reaches_cycle_def by blast
qed

lemma missing_then_cycle_walk:
  "generate_css_files_of_asset (Suc (Suc n)) ev cfg missing_then_cycle_manifest ''a.js'' []
     = Some (Inl (KeyError ''missing.js''))"
proof -
  have "generate_css_files_of_asset (Suc (Suc 0)) ev cfg missing_then_cycle_manifest ''a.js'' []
     = Some (Inl (KeyError ''missing.js''))"
    by (simp add: missing_then_cycle_manifest_def imports_of_def)
  then show ?thesis by (rule walk_mono) simp
qed

lemma cycle_then_missing_walk:
  "generate_css_files_of_asset n ev cfg cycle_then_missing_manifest ''a.js'' ap = None"
proof (induction n arbitrary: ap)
  case 0
  show ?case by simp
next
  case (Suc n)
  then show ?case by (simp add: cycle_then_missing_manifest_def imports_of_def)
qed

lemma dangling_acyclic: "acyclic (import_edges dangling_manifest)"
  by (rule acyclic_import_edgesI[where rank = "\<lambda>p. if p = ''a.js'' then 1 else 0"])
     (auto simp: dangling_manifest_def imports_of_def split: if_splits)

lemma dangling_edge: "(''a.js'', ''missing.js'') \<in> (import_edges dangling_manifest)\<^sup>*"
proof -
  have "(''a.js'', ''missing.js'') \<in> import_edges dangling_manifest"
    by (simp add: import_edges_def dangling_manifest_def imports_of_def)
  then show ?thesis by (rule r_into_rtrancl)
qed

lemma instance_of_loader_constructed:
  "instance_of_loader ev cfg (Some self) = (Inr self, Some self)"
  by (simp add: instance_of_loader_def)

lemma instance_of_loader_failed_parse:
  assumes "\<not> DJANGO_VITE_DEV_MODE cfg"
    and "read_file ev (DJANGO_VITE_MANIFEST_PATH cfg) = Inl msg
         \<or> (\<exists>content. read_file ev (DJANGO_VITE_MANIFEST_PATH cfg) = Inr content \<and> json_loads ev content = Inl msg)"
  shows "instance_of_loader ev cfg None = (Inl (manifest_load_error cfg msg), Some \<lparr>manifest = None\<rparr>)"
  using assms by (auto simp: instance_of_loader_def parse_manifest_def)

lemma instance_of_loader_parsed:
  assumes "\<not> DJANGO_VITE_DEV_MODE cfg"
    and "instance_of_loader ev cfg None = (Inr self, cls_instance)"
  shows "\<exists>content m. read_file ev (DJANGO_VITE_MANIFEST_PATH cfg) = Inr content
           \<and> json_loads ev content = Inr m \<and> manifest self = Some m \<and> cls_instance = Some self"
  using assms
  by (auto simp: instance_of_loader_def parse_manifest_def Let_def split: sum.splits)

lemma demo_read_fails:
  "read_file demo_env (DJANGO_VITE_MANIFEST_PATH demo_settings) = Inl ''No such file or directory''"
  by (simp add: demo_env_def)

section \<open>The claims\<close>

text \<open>
  Claim C2. Within one call of \<^verbatim>\<open>generate_vite_asset\<close> in production every CSS path
  gets at most one link tag. Every call of the walk, nested or not, that returns tags
  returns the tags of a list \<open>ps\<close> of pairwise different CSS paths, none of which was in
  the list of processed paths it was given, and it hands on that list extended by exactly
  the paths of \<open>ps\<close>: the list is threaded through the whole call tree. The output of
  \<^verbatim>\<open>generate_vite_asset\<close> is the link tags of such a duplicate-free list, one per path,
  followed by the script tag.
\<close>

theorem css_link_emitted_at_most_once:
  "(generate_css_files_of_asset n ev cfg m path already_processed = Some (Inr (tags, already_processed')) \<longrightarrow>
      (\<exists>ps. css_paths_of_asset n m path already_processed = Some (Inr (ps, already_processed'))
         \<and> tags = map (css_tag ev cfg) ps
         \<and> distinct ps
         \<and> set ps \<inter> set already_processed = {}
         \<and> set already_processed' = set already_processed \<union> set ps))
   \<and> (\<not> DJANGO_VITE_DEV_MODE cfg \<and> generate_vite_asset n ev cfg self path kwargs = Some (Inr out) \<longrightarrow>
      (\<exists>m e ps seen. lookup_manifest self path = Some (m, e)
         \<and> css_paths_of_asset n m path [] = Some (Inr (ps, seen))
         \<and> distinct ps
         \<and> out = str_join ''\<newline>'' (map (css_tag ev cfg) ps @
                 [generate_script_tag (generate_production_server_url ev cfg (entry_file e))
                    (dict_merge [(''type'', ''module''), (''crossorigin'', '''')] kwargs)])))"
proof (intro conjI impI)
  assume "generate_css_files_of_asset n ev cfg m path already_processed = Some (Inr (tags, already_processed'))"
  from walk_Inr_paths[OF this] obtain ps where
    ps: "css_paths_of_asset n m path already_processed = Some (Inr (ps, already_processed'))"
    and tags: "tags = map (css_tag ev cfg) ps" by blast
  from css_paths_inv[OF ps] ps tags
  show "\<exists>ps. css_paths_of_asset n m path already_processed = Some (Inr (ps, already_processed'))
         \<and> tags = map (css_tag ev cfg) ps
         \<and> distinct ps
         \<and> set ps \<inter> set already_processed = {}
         \<and> set already_processed' = set already_processed \<union> set ps"
    by (auto simp: css_inv_def)
next
  assume a: "\<not> DJANGO_VITE_DEV_MODE cfg \<and> generate_vite_asset n ev cfg self path kwargs = Some (Inr out)"
  from generate_vite_asset_production_Inr[of cfg n ev self path kwargs out] a
  obtain m e tags ap' where l: "lookup_manifest self path = Some (m, e)"
    and w: "generate_css_files_of_asset n ev cfg m path [] = Some (Inr (tags, ap'))"
    and out: "out = str_join ''\<newline>'' (tags @
                 [generate_script_tag (generate_production_server_url ev cfg (entry_file e))
                    (dict_merge [(''type'', ''module''), (''crossorigin'', '''')] kwargs)])"
    by blast
  from walk_Inr_paths[OF w] obtain ps where
    ps: "css_paths_of_asset n m path [] = Some (Inr (ps, ap'))"
    and tags: "tags = map (css_tag ev cfg) ps" by blast
  from css_paths_inv[OF ps] have "distinct ps" by (simp add: css_inv_def)
  with l ps out tags
  show "\<exists>m e ps seen. lookup_manifest self path = Some (m, e)
         \<and> css_paths_of_asset n m path [] = Some (Inr (ps, seen))
         \<and> distinct ps
         \<and> out = str_join ''\<newline>'' (map (css_tag ev cfg) ps @
                 [generate_script_tag (generate_production_server_url ev cfg (entry_file e))
                    (dict_merge [(''type'', ''module''), (''crossorigin'', '''')] kwargs)])"
    by blast
qed

text \<open>
  The example of the specification: \<^verbatim>\<open>a.js\<close> imports \<^verbatim>\<open>b.js\<close> and \<^verbatim>\<open>c.js\<close>, which both
  list \<^verbatim>\<open>x.css\<close>; one link tag for \<^verbatim>\<open>x.css\<close> is emitted.
\<close>

theorem css_link_emitted_at_most_once_witness:
  "generate_vite_asset (Suc (Suc 0)) demo_env demo_settings \<lparr>manifest = Some shared_css_manifest\<rparr> ''a.js'' []
     = Some (Inr (str_join ''\<newline>''
         [generate_stylesheet_tag ''x.css'', generate_stylesheet_tag ''a.css'',
          generate_script_tag ''a.1.js'' [(''type'', ''module''), (''crossorigin'', '''')]]))
   \<and> (\<exists>m e ps seen. lookup_manifest \<lparr>manifest = Some shared_css_manifest\<rparr> ''a.js'' = Some (m, e)
         \<and> css_paths_of_asset (Suc (Suc 0)) m ''a.js'' [] = Some (Inr (ps, seen))
         \<and> distinct ps
         \<and> str_join ''\<newline>''
              [generate_stylesheet_tag ''x.css'', generate_stylesheet_tag ''a.css'',
               generate_script_tag ''a.1.js'' [(''type'', ''module''), (''crossorigin'', '''')]]
            = str_join ''\<newline>'' (map (css_tag demo_env demo_settings) ps @
                 [generate_script_tag (generate_production_server_url demo_env demo_settings (entry_file e))
                    (dict_merge [(''type'', ''module''), (''crossorigin'', '''')] [])]))"
proof -
  have run: "generate_vite_asset (Suc (Suc 0)) demo_env demo_settings \<lparr>manifest = Some shared_css_manifest\<rparr> ''a.js'' []
     = Some (Inr (str_join ''\<newline>''
         [generate_stylesheet_tag ''x.css'', generate_stylesheet_tag ''a.css'',
          generate_script_tag ''a.1.js'' [(''type'', ''module''), (''crossorigin'', '''')]]))"
    by (simp add: generate_vite_asset_def lookup_manifest_def dict_merge_def demo_production demo_url
          shared_css_manifest_def imports_of_def css_of_def)
  from css_link_emitted_at_most_once[THEN conjunct2, rule_format, OF conjI[OF demo_production run]] run
  show ?thesis by blast
qed

text \<open>
  Claim C3. A call of the walk that returns tags has walked the imports of its entry in
  their listed order, each import starting from the list of processed paths the one before
  it left (\<open>aps\<close>), and its tags are the tags of the first import, then those of the
  second, and so on (\<open>concat tss\<close>), followed by the tags of the entry's own
  \<^verbatim>\<open>css\<close> paths that were not processed before: the CSS of the imports comes before the
  entry's own.
\<close>

theorem css_of_imports_precede_own_css:
  assumes "generate_css_files_of_asset n ev cfg m path already_processed = Some (Inr (tags, already_processed'))"
  shows "\<exists>fuel e tss aps.
           n = Suc fuel \<and> map_of m path = Some e
         \<and> length tss = length (imports_of e) \<and> length aps = Suc (length (imports_of e))
         \<and> aps ! 0 = already_processed
         \<and> (\<forall>i<length (imports_of e).
               generate_css_files_of_asset fuel ev cfg m (imports_of e ! i) (aps ! i)
                 = Some (Inr (tss ! i, aps ! Suc i)))
         \<and> tags = concat tss @ map (css_tag ev cfg) (new_css (css_of e) (last aps))
         \<and> already_processed' = last aps @ css_of e"
proof (cases n)
  case 0
  with assms show ?thesis by simp
next
  case (Suc fuel)
  with assms obtain e ts ap1 where e: "map_of m path = Some e"
    and l: "imports_loop (generate_css_files_of_asset fuel ev cfg m) (imports_of e) [] already_processed
              = Some (Inr (ts, ap1))"
    and res: "css_loop ev cfg (css_of e) ts ap1 = (tags, already_processed')"
    by (auto split: option.splits sum.splits)
  from imports_loop_steps[OF l] obtain tss aps where st:
    "length tss = length (imports_of e)" "length aps = Suc (length (imports_of e))"
    "aps ! 0 = already_processed" "last aps = ap1"
    "\<forall>i<length (imports_of e).
        generate_css_files_of_asset fuel ev cfg m (imports_of e ! i) (aps ! i) = Some (Inr (tss ! i, aps ! Suc i))"
    "ts = concat tss"
    by blast
  from res st(4,6) have "tags = concat tss @ map (css_tag ev cfg) (new_css (css_of e) (last aps))"
    and "already_processed' = last aps @ css_of e"
    by (simp_all add: css_loop_new_css)
  with Suc e st show ?thesis by blast
qed

text \<open>
  The example of the specification: \<^verbatim>\<open>a.js\<close> imports \<^verbatim>\<open>b.js\<close> and \<^verbatim>\<open>c.js\<close> in that order,
  which list \<^verbatim>\<open>b.css\<close> and \<^verbatim>\<open>c.css\<close>; the order of the tags is \<^verbatim>\<open>b.css\<close>, \<^verbatim>\<open>c.css\<close>,
  then the own \<^verbatim>\<open>a.css\<close>.
\<close>

theorem css_of_imports_precede_own_css_witness:
  "generate_css_files_of_asset (Suc (Suc 0)) demo_env demo_settings ordered_css_manifest ''a.js'' []
     = Some (Inr ([generate_stylesheet_tag ''b.css'', generate_stylesheet_tag ''c.css'',
                   generate_stylesheet_tag ''a.css''], [''b.css'', ''c.css'', ''a.css'']))
   \<and> (\<exists>fuel e tss aps.
           Suc (Suc 0) = Suc fuel \<and> map_of ordered_css_manifest ''a.js'' = Some e
         \<and> length tss = length (imports_of e) \<and> length aps = Suc (length (imports_of e))
         \<and> aps ! 0 = []
         \<and> (\<forall>i<length (imports_of e).
               generate_css_files_of_asset fuel demo_env demo_settings ordered_css_manifest (imports_of e ! i) (aps ! i)
                 = Some (Inr (tss ! i, aps ! Suc i)))
         \<and> [generate_stylesheet_tag ''b.css'', generate_stylesheet_tag ''c.css'', generate_stylesheet_tag ''a.css'']
             = concat tss @ map (css_tag demo_env demo_settings) (new_css (css_of e) (last aps))
         \<and> [''b.css'', ''c.css'', ''a.css''] = last aps @ css_of e)"
  using css_of_imports_precede_own_css[OF ordered_walk] ordered_walk by blast










text \<open>
  Claim C9 as stated says that the recursion does not terminate whenever an import cycle
  is reached from the requested entry. Here \<^verbatim>\<open>a.js\<close> imports itself, so it lies on a
  cycle, but it imports \<^verbatim>\<open>missing.js\<close>, which is no key, first: the walk ends with
  \<^verbatim>\<open>KeyError\<close> before it follows the cycle.
\<close>

theorem cycle_after_missing_import_terminates:
  "\<not> DJANGO_VITE_DEV_MODE demo_settings
   \<and> map_of missing_then_cycle_manifest ''a.js''
        = Some \<lparr>entry_file = ''a.1.js'', entry_imports = Some [''missing.js'', ''a.js''], entry_css = None\<rparr>
   \<and> (''a.js'', ''a.js'') \<in> (import_edges missing_then_cycle_manifest)\<^sup>+
   \<and> reaches_cycle missing_then_cycle_manifest ''a.js''
   \<and> (\<forall>n. generate_css_files_of_asset (Suc (Suc n)) demo_env demo_settings missing_then_cycle_manifest ''a.js'' []
          = Some (Inl (KeyError ''missing.js'')))
   \<and> (\<forall>n. generate_vite_asset (Suc (Suc n)) demo_env demo_settings \<lparr>manifest = Some missing_then_cycle_manifest\<rparr> ''a.js'' []
          = Some (Inl (KeyError ''missing.js'')))"
proof -
  have man: "manifest \<lparr>manifest = Some missing_then_cycle_manifest\<rparr> = Some missing_then_cycle_manifest" by simp
  have ent: "map_of missing_then_cycle_manifest ''a.js''
        = Some \<lparr>entry_file = ''a.1.js'', entry_imports = Some [''missing.js'', ''a.js''], entry_css = None\<rparr>"
    by (simp add: missing_then_cycle_manifest_def)
  have "(''a.js'', ''a.js'') \<in> import_edges missing_then_cycle_manifest"
    by (simp add: import_edges_def missing_then_cycle_manifest_def imports_of_def)
  then have cyc: "(''a.js'', ''a.js'') \<in> (import_edges missing_then_cycle_manifest)\<^sup>+" by (rule r_into_trancl)
  have "\<forall>n. generate_vite_asset (Suc (Suc n)) demo_env demo_settings \<lparr>manifest = Some missing_then_cycle_manifest\<rparr> ''a.js'' []
          = Some (Inl (KeyError ''missing.js''))"
    unfolding generate_vite_asset_production[OF demo_production man ent] missing_then_cycle_walk by simp
  with demo_production ent cyc missing_then_cycle_reaches_cycle missing_then_cycle_walk show ?thesis by blast
qed

text \<open>
  Claim C9, as amended. On a manifest whose imports relation is acyclic the walk, and with
  it \<^verbatim>\<open>generate_vite_asset\<close> in production, ends (with tags or with an exception) at
  every sufficient depth of recursion. There is no cycle detection: when an import cycle is
  reached from the requested path and every path reached along imports is a key, the walk
  and \<^verbatim>\<open>generate_vite_asset\<close> end at no depth of recursion.
\<close>

theorem css_walk_termination:
  "(acyclic (import_edges m) \<longrightarrow>
      (\<exists>n. \<forall>k\<ge>n. generate_css_files_of_asset k ev cfg m path already_processed \<noteq> None))
   \<and> (acyclic (import_edges m) \<and> \<not> DJANGO_VITE_DEV_MODE cfg \<and> manifest self = Some m \<longrightarrow>
      (\<exists>n. \<forall>k\<ge>n. generate_vite_asset k ev cfg self path kwargs \<noteq> None))
   \<and> (reaches_cycle m path \<and> imports_resolve m path \<longrightarrow>
      (\<forall>n. generate_css_files_of_asset n ev cfg m path already_processed = None))
   \<and> (reaches_cycle m path \<and> imports_resolve m path \<and> \<not> DJANGO_VITE_DEV_MODE cfg \<and> manifest self = Some m \<longrightarrow>
      (\<forall>n. generate_vite_asset n ev cfg self path kwargs = None))"
proof (intro conjI impI allI)
  assume "acyclic (import_edges m)"
  from walk_terminates[OF this, of ev cfg path]
  show "\<exists>n. \<forall>k\<ge>n. generate_css_files_of_asset k ev cfg m path already_processed \<noteq> None"
    by blast
next
  assume a: "acyclic (import_edges m) \<and> \<not> DJANGO_VITE_DEV_MODE cfg \<and> manifest self = Some m"
  then have "acyclic (import_edges m)" by simp
  from walk_terminates[OF this, of ev cfg path] obtain n where
    n: "\<forall>k\<ge>n. generate_css_files_of_asset k ev cfg m path [] \<noteq> None" by blast
  have "\<forall>k\<ge>n. generate_vite_asset k ev cfg self path kwargs \<noteq> None"
  proof (intro allI impI)
    fix k
    assume "n \<le> k"
    with n have "generate_css_files_of_asset k ev cfg m path [] \<noteq> None" by blast
    with a show "generate_vite_asset k ev cfg self path kwargs \<noteq> None"
      by (intro generate_vite_asset_returns) simp_all
  qed
  then show "\<exists>n. \<forall>k\<ge>n. generate_vite_asset k ev cfg self path kwargs \<noteq> None" by blast
next
  fix n
  assume "reaches_cycle m path \<and> imports_resolve m path"
  then show "generate_css_files_of_asset n ev cfg m path already_processed = None"
    by (simp add: walk_diverges)
next
  fix n
  assume "reaches_cycle m path \<and> imports_resolve m path \<and> \<not> DJANGO_VITE_DEV_MODE cfg \<and> manifest self = Some m"
  then show "generate_vite_asset n ev cfg self path kwargs = None"
    by (simp add: generate_vite_asset_diverges)
qed

text \<open>
  The acyclic manifest of the ordering example, and a manifest in which \<^verbatim>\<open>a.js\<close> and
  \<^verbatim>\<open>b.js\<close> import each other.
\<close>

theorem css_walk_termination_witness:
  "acyclic (import_edges ordered_css_manifest)
   \<and> (\<exists>n. \<forall>k\<ge>n. generate_vite_asset k demo_env demo_settings \<lparr>manifest = Some ordered_css_manifest\<rparr> ''a.js'' [] \<noteq> None)
   \<and> reaches_cycle cyclic_manifest ''a.js'' \<and> imports_resolve cyclic_manifest ''a.js''
   \<and> (\<forall>n. generate_css_files_of_asset n demo_env demo_settings cyclic_manifest ''a.js'' [] = None)
   \<and> (\<forall>n. generate_vite_asset n demo_env demo_settings \<lparr>manifest = Some cyclic_manifest\<rparr> ''a.js'' [] = None)"
proof -
  have man: "manifest \<lparr>manifest = Some ordered_css_manifest\<rparr> = Some ordered_css_manifest" by simp
  have man2: "manifest \<lparr>manifest = Some cyclic_manifest\<rparr> = Some cyclic_manifest" by simp
  from css_walk_termination[where m = ordered_css_manifest and cfg = demo_settings
      and self = "\<lparr>manifest = Some ordered_css_manifest\<rparr>" and ev = demo_env and path = "''a.js''" and kwargs = "[]"]
    ordered_acyclic demo_production man
  have a: "\<exists>n. \<forall>k\<ge>n. generate_vite_asset k demo_env demo_settings \<lparr>manifest = Some ordered_css_manifest\<rparr> ''a.js'' [] \<noteq> None"
    by blast
  from css_walk_termination[where m = cyclic_manifest and cfg = demo_settings
      and self = "\<lparr>manifest = Some cyclic_manifest\<rparr>" and ev = demo_env and path = "''a.js''" and kwargs = "[]"
      and already_processed = "[]"]
    cyclic_reaches_cycle cyclic_resolve demo_production man2
  have b: "\<forall>n. generate_css_files_of_asset n demo_env demo_settings cyclic_manifest ''a.js'' [] = None"
    and c: "\<forall>n. generate_vite_asset n demo_env demo_settings \<lparr>manifest = Some cyclic_manifest\<rparr> ''a.js'' [] = None"
    by blast+
  from ordered_acyclic a cyclic_reaches_cycle cyclic_resolve b c show ?thesis by blast
qed

text \<open>
  Claim C10 as stated says that \<^verbatim>\<open>generate_vite_asset\<close> fails with the lookup error
  whenever an entry reached from the requested one imports a path that is no key. Here
  \<^verbatim>\<open>a.js\<close> imports \<^verbatim>\<open>missing.js\<close>, which is no key, but imports itself first: the
  recursion never reaches the lookup of \<^verbatim>\<open>missing.js\<close> and raises no \<^verbatim>\<open>KeyError\<close> at any
  depth.
\<close>

theorem cycle_before_missing_import_never_raises:
  "\<not> DJANGO_VITE_DEV_MODE demo_settings
   \<and> map_of cycle_then_missing_manifest ''a.js''
        = Some \<lparr>entry_file = ''a.1.js'', entry_imports = Some [''a.js'', ''missing.js''], entry_css = None\<rparr>
   \<and> (''a.js'', ''missing.js'') \<in> (import_edges cycle_then_missing_manifest)\<^sup>*
   \<and> map_of cycle_then_missing_manifest ''missing.js'' = None
   \<and> (\<forall>n. generate_vite_asset n demo_env demo_settings \<lparr>manifest = Some cycle_then_missing_manifest\<rparr> ''a.js'' [] = None)"
proof -
  have man: "manifest \<lparr>manifest = Some cycle_then_missing_manifest\<rparr> = Some cycle_then_missing_manifest" by simp
  have ent: "map_of cycle_then_missing_manifest ''a.js''
        = Some \<lparr>entry_file = ''a.1.js'', entry_imports = Some [''a.js'', ''missing.js''], entry_css = None\<rparr>"
    by (simp add: cycle_then_missing_manifest_def)
  have miss: "map_of cycle_then_missing_manifest ''missing.js'' = None"
    by (simp add: cycle_then_missing_manifest_def)
  have "(''a.js'', ''missing.js'') \<in> import_edges cycle_then_missing_manifest"
    by (simp add: import_edges_def cycle_then_missing_manifest_def imports_of_def)
  then have edge: "(''a.js'', ''missing.js'') \<in> (import_edges cycle_then_missing_manifest)\<^sup>*"
    by (rule r_into_rtrancl)
  have "\<forall>n. generate_vite_asset n demo_env demo_settings \<lparr>manifest = Some cycle_then_missing_manifest\<rparr> ''a.js'' [] = None"
    unfolding generate_vite_asset_production[OF demo_production man ent] cycle_then_missing_walk by simp
  with demo_production ent edge miss show ?thesis by blast
qed

text \<open>
  Claim C10, as amended. The guard that raises "Cannot find ..." looks at the requested
  path only; the walk subscripts the manifest with every import path. In production, for
  a requested path that is a key: if the imports relation is acyclic and some path
  reached along imports is no key, \<^verbatim>\<open>generate_vite_asset\<close> raises \<^verbatim>\<open>KeyError\<close> for such
  a path, at every sufficient depth of recursion; every exception it raises is a
  \<^verbatim>\<open>KeyError\<close> for a path reached along imports that is no key; if every path reached
  along imports is a key it raises nothing; and a \<^verbatim>\<open>KeyError\<close> is none of the three
  \<^verbatim>\<open>RuntimeError\<close>s the loader raises itself.
\<close>

theorem unguarded_import_lookup:
  assumes "\<not> DJANGO_VITE_DEV_MODE cfg" and "manifest self = Some m" and "map_of m path = Some e"
  shows "(acyclic (import_edges m) \<and> (path, q) \<in> (import_edges m)\<^sup>* \<and> map_of m q = None \<longrightarrow>
            (\<exists>n key. map_of m key = None \<and> (path, key) \<in> (import_edges m)\<^sup>*
               \<and> (\<forall>k\<ge>n. generate_vite_asset k ev cfg self path kwargs = Some (Inl (KeyError key)))))
       \<and> (imports_resolve m path \<longrightarrow>
            (\<forall>n err. generate_vite_asset n ev cfg self path kwargs \<noteq> Some (Inl err)))
       \<and> (\<forall>n err. generate_vite_asset n ev cfg self path kwargs = Some (Inl err) \<longrightarrow>
            (\<exists>key. err = KeyError key \<and> map_of m key = None \<and> (path, key) \<in> (import_edges m)\<^sup>*))
       \<and> (\<forall>key msg. KeyError key \<noteq> asset_not_found cfg path \<and> KeyError key \<noteq> polyfills_not_found cfg
              \<and> KeyError key \<noteq> manifest_load_error cfg msg)"
proof (intro conjI impI allI)
  assume a: "acyclic (import_edges m) \<and> (path, q) \<in> (import_edges m)\<^sup>* \<and> map_of m q = None"
  then have "\<not> imports_resolve m path" by (auto simp: imports_resolve_def)
  with a generate_vite_asset_raises_KeyError[OF assms, of ev kwargs]
  show "\<exists>n key. map_of m key = None \<and> (path, key) \<in> (import_edges m)\<^sup>*
               \<and> (\<forall>k\<ge>n. generate_vite_asset k ev cfg self path kwargs = Some (Inl (KeyError key)))"
    by blast
next
  fix n err
  assume r: "imports_resolve m path"
  show "generate_vite_asset n ev cfg self path kwargs \<noteq> Some (Inl err)"
  proof
    assume "generate_vite_asset n ev cfg self path kwargs = Some (Inl err)"
    from generate_vite_asset_Inl[OF assms this] r show False
      by (auto simp: imports_resolve_def)
  qed
next
  fix n err
  assume "generate_vite_asset n ev cfg self path kwargs = Some (Inl err)"
  then show "\<exists>key. err = KeyError key \<and> map_of m key = None \<and> (path, key) \<in> (import_edges m)\<^sup>*"
    by (rule generate_vite_asset_Inl[OF assms])
qed (simp_all add: asset_not_found_def polyfills_not_found_def manifest_load_error_def)

text \<open>
  A manifest whose entry imports a path that is no key, and the manifest of the ordering
  example, where every import is a key.
\<close>

theorem unguarded_import_lookup_witness:
  "\<not> DJANGO_VITE_DEV_MODE demo_settings
   \<and> map_of dangling_manifest ''a.js''
        = Some \<lparr>entry_file = ''a.1.js'', entry_imports = Some [''missing.js''], entry_css = None\<rparr>
   \<and> acyclic (import_edges dangling_manifest)
   \<and> (''a.js'', ''missing.js'') \<in> (import_edges dangling_manifest)\<^sup>*
   \<and> map_of dangling_manifest ''missing.js'' = None
   \<and> (\<exists>n key. map_of dangling_manifest key = None \<and> (''a.js'', key) \<in> (import_edges dangling_manifest)\<^sup>*
         \<and> (\<forall>k\<ge>n. generate_vite_asset k demo_env demo_settings \<lparr>manifest = Some dangling_manifest\<rparr> ''a.js'' []
                = Some (Inl (KeyError key))))
   \<and> imports_resolve ordered_css_manifest ''a.js''
   \<and> (\<forall>n err. generate_vite_asset n demo_env demo_settings \<lparr>manifest = Some ordered_css_manifest\<rparr> ''a.js'' []
         \<noteq> Some (Inl err))"
proof -
  have man: "manifest \<lparr>manifest = Some dangling_manifest\<rparr> = Some dangling_manifest" by simp
  have ent: "map_of dangling_manifest ''a.js''
        = Some \<lparr>entry_file = ''a.1.js'', entry_imports = Some [''missing.js''], entry_css = None\<rparr>"
    by (simp add: dangling_manifest_def)
  have miss: "map_of dangling_manifest ''missing.js'' = None"
    by (simp add: dangling_manifest_def)
  from unguarded_import_lookup[OF demo_production man ent, where q = "''missing.js''" and ev = demo_env and kwargs = "[]"]
    dangling_acyclic dangling_edge miss
  have a: "\<exists>n key. map_of dangling_manifest key = None \<and> (''a.js'', key) \<in> (import_edges dangling_manifest)\<^sup>*
         \<and> (\<forall>k\<ge>n. generate_vite_asset k demo_env demo_settings \<lparr>manifest = Some dangling_manifest\<rparr> ''a.js'' []
                = Some (Inl (KeyError key)))"
    by blast
  have man2: "manifest \<lparr>manifest = Some ordered_css_manifest\<rparr> = Some ordered_css_manifest" by simp
  have ent2: "map_of ordered_css_manifest ''a.js''
       = Some \<lparr>entry_file = ''a.1.js'', entry_imports = Some [''b.js'', ''c.js''], entry_css = Some [''a.css'']\<rparr>"
    by (simp add: ordered_css_manifest_def)
  from unguarded_import_lookup[OF demo_production man2 ent2, where ev = demo_env and kwargs = "[]"] ordered_resolve
  have b: "\<forall>n err. generate_vite_asset n demo_env demo_settings \<lparr>manifest = Some ordered_css_manifest\<rparr> ''a.js'' []
         \<noteq> Some (Inl err)"
    by blast
  from demo_production ent dangling_acyclic dangling_edge miss a ordered_resolve b show ?thesis by blast
qed

text \<open>
  Claim C7. In production a first call of \<^verbatim>\<open>instance\<close> raises the \<^verbatim>\<open>RuntimeError\<close> "Cannot
  read Vite manifest file" when the file cannot be read or parsed (lemma
  \<open>instance_of_loader_failed_parse\<close>), and a first call that returns a loader returns one
  whose manifest is the parsed file (lemma \<open>instance_of_loader_parsed\<close>). But the class
  attribute is assigned before the manifest is parsed, so the failed call leaves a loader
  without manifest behind, and the next call returns it. With an unreadable manifest file:
  the first call raises, the second returns the loader whose \<^verbatim>\<open>_manifest\<close> is \<^verbatim>\<open>None\<close>; on
  it \<^verbatim>\<open>vite_asset_url\<close> raises "Cannot find ..." and \<^verbatim>\<open>vite_legacy_polyfills\<close> raises
  \<^verbatim>\<open>AttributeError\<close>.
\<close>

theorem instance_keeps_loader_of_failed_parse:
  "instance_of_loader demo_env demo_settings None
     = (Inl (RuntimeError ''Cannot read Vite manifest file at static/manifest.json : No such file or directory''),
        Some \<lparr>manifest = None\<rparr>)
   \<and> instance_of_loader demo_env demo_settings (Some \<lparr>manifest = None\<rparr>)
     = (Inr \<lparr>manifest = None\<rparr>, Some \<lparr>manifest = None\<rparr>)
   \<and> vite_asset_url demo_env demo_settings (Some \<lparr>manifest = None\<rparr>) ''main.js''
     = (Inl (RuntimeError ''Cannot find main.js in Vite manifest at static/manifest.json''),
        Some \<lparr>manifest = None\<rparr>)
   \<and> vite_legacy_polyfills demo_env demo_settings (Some \<lparr>manifest = None\<rparr>) []
     = (Inl AttributeError, Some \<lparr>manifest = None\<rparr>)"
proof -
  have a: "instance_of_loader demo_env demo_settings None
     = (Inl (RuntimeError ''Cannot read Vite manifest file at static/manifest.json : No such file or directory''),
        Some \<lparr>manifest = None\<rparr>)"
    using instance_of_loader_failed_parse[OF demo_production, of demo_env "''No such file or directory''"]
      demo_read_fails
    by (simp add: manifest_load_error_def demo_manifest_path)
  have b: "vite_asset_url demo_env demo_settings (Some \<lparr>manifest = None\<rparr>) ''main.js''
     = (Inl (RuntimeError ''Cannot find main.js in Vite manifest at static/manifest.json''),
        Some \<lparr>manifest = None\<rparr>)"
    using demo_production
    by (simp add: vite_asset_url_def instance_of_loader_constructed generate_vite_asset_url_def
          lookup_manifest_def asset_not_found_def demo_manifest_path)
  have c: "vite_legacy_polyfills demo_env demo_settings (Some \<lparr>manifest = None\<rparr>) []
     = (Inl AttributeError, Some \<lparr>manifest = None\<rparr>)"
    using demo_production
    by (simp add: vite_legacy_polyfills_def instance_of_loader_constructed generate_vite_legacy_polyfills_def)
  from a b c show ?thesis by (simp add: instance_of_loader_constructed)
qed



end
